theory Spec2Isabelle
  imports Complex_Main
begin

section \<open>Data model\<close>

text \<open>
  A tensor is modelled by the list of its elements (its flattened contents) over the
  real numbers: the arithmetic of \<^verbatim>\<open>optimizer.py\<close> is read as exact arithmetic,
  so rounding, overflow and NaN are outside this development. A parameter is a
  mutable object; it is identified by an address of type \<open>pid\<close> and its current
  contents (\<^verbatim>\<open>p.data\<close> and the optional \<^verbatim>\<open>p.grad\<close>) live in a store.
  The library keeps \<^verbatim>\<open>p.grad\<close> of the same shape as \<^verbatim>\<open>p.data\<close>;
  element-wise products and sums are written with \<open>map2\<close>.
\<close>

type_synonym tensor = "real list"

type_synonym pid = nat

type_synonym ref = nat

datatype error = AssertionError | ValueError string | IndexError | KeyError | RuntimeError

datatype hyper = Num real | Flag bool | Pair real real

type_synonym kwargs = "string \<rightharpoonup> hyper"

record param =
  data :: tensor
  grad :: "tensor option"

text \<open>
  A parameter group is the dictionary \<^verbatim>\<open>group\<close> of the source: the keys the
  source reads (\<^verbatim>\<open>"params"\<close>, \<^verbatim>\<open>"rho"\<close>, \<^verbatim>\<open>"adaptive"\<close>) are fields, the
  hyperparameters of the wrapped optimizer are kept in \<open>hypers\<close>.
\<close>

record group =
  params :: "pid list"
  rho :: real
  adaptive :: bool
  hypers :: kwargs

datatype opt_class = SGD | Adam | AdamW | AdaBelief

text \<open>
  The state of the world a \<^verbatim>\<open>SAM\<close> object acts on. \<open>store\<close> holds the
  parameters of the model. \<open>heap\<close> holds the list objects that contain parameter
  groups; \<open>param_groups\<close> is the reference \<^verbatim>\<open>self.param_groups\<close> and
  \<open>base_param_groups\<close> the reference \<^verbatim>\<open>self.base_optimizer.param_groups\<close>.
  \<open>state\<close> is \<^verbatim>\<open>self.state[p]["old_p"]\<close>. The record is extensible, so
  a caller's closure may own further fields.
\<close>

record sam =
  store :: "pid \<Rightarrow> param"
  heap :: "ref \<Rightarrow> group list"
  param_groups :: ref
  base_class :: opt_class
  base_param_groups :: ref
  defaults :: kwargs
  state :: "pid \<rightharpoonup> tensor"

definition groups :: "'a sam_scheme \<Rightarrow> group list" where
  "groups s = heap s (param_groups s)"

definition all_params :: "group list \<Rightarrow> pid list" where
  "all_params gs = concat (map params gs)"

section \<open>The gradient norm\<close>

text \<open>\<^verbatim>\<open>t.norm(p=2)\<close>: the square root of the sum of the squares of the elements.\<close>

definition l2norm :: "real list \<Rightarrow> real" where
  "l2norm xs = sqrt (sum_list (map (\<lambda>x. x\<^sup>2) xs))"

text \<open>
  \<^verbatim>\<open>((torch.abs(p) if group["adaptive"] else 1.0) * p.grad).norm(p=2)\<close>
  for a parameter with data \<open>w\<close> and gradient \<open>g\<close>.
\<close>

definition weighted_grad :: "group \<Rightarrow> tensor \<Rightarrow> tensor \<Rightarrow> tensor" where
  "weighted_grad gr w g =
     (if adaptive gr then map2 (\<lambda>x d. \<bar>x\<bar> * d) w g else map (\<lambda>d. 1 * d) g)"

definition group_norms :: "(pid \<Rightarrow> param) \<Rightarrow> group \<Rightarrow> real list" where
  "group_norms st gr =
     concat (map (\<lambda>p. case grad (st p) of
                         None \<Rightarrow> []
                       | Some g \<Rightarrow> [l2norm (weighted_grad gr (data (st p)) g)])
                 (params gr))"

text \<open>
  \<^verbatim>\<open>_grad_norm\<close>. Line 72 reads \<^verbatim>\<open>self.param_groups[0]["params"][0]\<close> first:
  an empty group list or an empty first group raises \<^verbatim>\<open>IndexError\<close>.
  \<^verbatim>\<open>torch.stack\<close> of an empty list raises \<^verbatim>\<open>RuntimeError\<close>.
\<close>

definition grad_norm :: "'a sam_scheme \<Rightarrow> error + real" where
  "grad_norm s =
     (case groups s of
        [] \<Rightarrow> Inl IndexError
      | g0 # _ \<Rightarrow>
          (case params g0 of
             [] \<Rightarrow> Inl IndexError
           | _ # _ \<Rightarrow>
               (let norms = concat (map (group_norms (store s)) (groups s))
                in if norms = [] then Inl RuntimeError else Inr (l2norm norms))))"

section \<open>The two phases\<close>

text \<open>\<^verbatim>\<open>scale = group["rho"] / (grad_norm + 1e-12)\<close>\<close>

definition scale :: "group \<Rightarrow> real \<Rightarrow> real" where
  "scale gr gn = rho gr / (gn + 1 / 10 ^ 12)"

text \<open>
  \<^verbatim>\<open>e_w = (torch.pow(p, 2) if group["adaptive"] else 1.0) * p.grad * scale.to(p)\<close>
\<close>

definition e_w :: "group \<Rightarrow> real \<Rightarrow> tensor \<Rightarrow> tensor \<Rightarrow> tensor" where
  "e_w gr sc w g =
     (if adaptive gr then map2 (\<lambda>x d. x\<^sup>2 * d * sc) w g else map (\<lambda>d. 1 * d * sc) g)"

text \<open>The inner loop of \<^verbatim>\<open>first_step\<close> (lines 43 to 47) over the parameters of one group.\<close>

fun perturb :: "group \<Rightarrow> real \<Rightarrow> pid list \<Rightarrow> 'a sam_scheme \<Rightarrow> 'a sam_scheme" where
  "perturb gr sc [] s = s"
| "perturb gr sc (p # ps) s =
     (case grad (store s p) of
        None \<Rightarrow> perturb gr sc ps s
      | Some g \<Rightarrow>
          (let w = data (store s p);
               s1 = s\<lparr>state := (state s)(p \<mapsto> w)\<rparr>;
               s2 = s1\<lparr>store := (store s1)(p := (store s1 p)\<lparr>data := map2 (+) w (e_w gr sc w g)\<rparr>)\<rparr>
           in perturb gr sc ps s2))"

text \<open>The outer loop of \<^verbatim>\<open>first_step\<close> (lines 40 to 47).\<close>

fun perturb_groups :: "real \<Rightarrow> group list \<Rightarrow> 'a sam_scheme \<Rightarrow> 'a sam_scheme" where
  "perturb_groups gn [] s = s"
| "perturb_groups gn (gr # grs) s = perturb_groups gn grs (perturb gr (scale gr gn) (params gr) s)"

text \<open>
  \<^verbatim>\<open>self.zero_grad()\<close> is inherited from the library: with its default
  argument \<^verbatim>\<open>set_to_none=True\<close> it sets the gradient of every parameter of every
  group to \<^verbatim>\<open>None\<close>. It never writes \<^verbatim>\<open>p.data\<close> or the state.
\<close>

definition zero_grad :: "'a sam_scheme \<Rightarrow> 'a sam_scheme" where
  "zero_grad s =
     s\<lparr>store := (\<lambda>p. if p \<in> set (all_params (groups s))
                      then (store s p)\<lparr>grad := None\<rparr> else store s p)\<rparr>"

definition first_step :: "bool \<Rightarrow> 'a sam_scheme \<Rightarrow> error + 'a sam_scheme" where
  "first_step zg s =
     (case grad_norm s of
        Inl e \<Rightarrow> Inl e
      | Inr gn \<Rightarrow>
          (let s1 = perturb_groups gn (groups s) s
           in Inr (if zg then zero_grad s1 else s1)))"

text \<open>
  The inner loop of \<^verbatim>\<open>second_step\<close> (lines 54 to 56):
  \<^verbatim>\<open>self.state[p]["old_p"]\<close> raises \<^verbatim>\<open>KeyError\<close> when there is no snapshot.
\<close>

fun restore :: "pid list \<Rightarrow> 'a sam_scheme \<Rightarrow> error + 'a sam_scheme" where
  "restore [] s = Inr s"
| "restore (p # ps) s =
     (case grad (store s p) of
        None \<Rightarrow> restore ps s
      | Some g \<Rightarrow>
          (case state s p of
             None \<Rightarrow> Inl KeyError
           | Some old \<Rightarrow> restore ps (s\<lparr>store := (store s)(p := (store s p)\<lparr>data := old\<rparr>)\<rparr>)))"

fun restore_groups :: "group list \<Rightarrow> 'a sam_scheme \<Rightarrow> error + 'a sam_scheme" where
  "restore_groups [] s = Inr s"
| "restore_groups (gr # grs) s =
     (case restore (params gr) s of
        Inl e \<Rightarrow> Inl e
      | Inr s1 \<Rightarrow> restore_groups grs s1)"

text \<open>
  \<^verbatim>\<open>second_step\<close>. The step of the wrapped optimizer is a collaborator from the
  library; it is the parameter \<open>base_step\<close>, any function of the world, which may
  fail. Line 56 binds \<^verbatim>\<open>p.data\<close> to the snapshot tensor itself, so an in-place
  update by the wrapped optimizer also reaches the snapshot; \<open>base_step\<close> is free to
  change the state accordingly, and \<^verbatim>\<open>first_step\<close> always stores a fresh clone.
\<close>

definition second_step ::
  "('a sam_scheme \<Rightarrow> error + 'a sam_scheme) \<Rightarrow> bool \<Rightarrow> 'a sam_scheme \<Rightarrow> error + 'a sam_scheme" where
  "second_step base_step zg s =
     (case restore_groups (groups s) s of
        Inl e \<Rightarrow> Inl e
      | Inr s1 \<Rightarrow>
          (case base_step s1 of
             Inl e \<Rightarrow> Inl e
           | Inr s2 \<Rightarrow> Inr (if zg then zero_grad s2 else s2)))"

text \<open>
  \<^verbatim>\<open>step\<close>. The closure is an optional function of the world
  (\<^verbatim>\<open>torch.enable_grad()(closure)\<close> only switches gradient tracking on around it).
\<close>

definition step ::
  "('a sam_scheme \<Rightarrow> error + 'a sam_scheme) \<Rightarrow> ('a sam_scheme \<Rightarrow> error + 'a sam_scheme) option
     \<Rightarrow> 'a sam_scheme \<Rightarrow> error + 'a sam_scheme" where
  "step base_step closure s =
     (case closure of
        None \<Rightarrow> Inl AssertionError
      | Some c \<Rightarrow>
          (case first_step True s of
             Inl e \<Rightarrow> Inl e
           | Inr s1 \<Rightarrow>
               (case c s1 of
                  Inl e \<Rightarrow> Inl e
                | Inr s2 \<Rightarrow> second_step base_step False s2)))"

section \<open>Construction, persistence and the factory\<close>

text \<open>
  The collaborators from the library, as parameters of the model:
  \<^item> \<open>Optimizer_init\<close> is \<^verbatim>\<open>torch.optim.Optimizer.__init__(params, defaults)\<close>:
    given the heap it allocates the list \<^verbatim>\<open>self.param_groups\<close> and returns its
    reference, or raises;
  \<^item> \<open>construct_base\<close> is the call \<^verbatim>\<open>base_optimizer(self.param_groups, **kwargs)\<close>
    of the class chosen as the wrapped optimizer: it returns the reference of the
    new optimizer's own group list and its \<^verbatim>\<open>defaults\<close>, or raises;
  \<^item> \<open>construct\<close> is the construction of a library optimizer over the parameters
    of a model.
\<close>

record ('p, 'o) library =
  Optimizer_init :: "'p \<Rightarrow> kwargs \<Rightarrow> (ref \<Rightarrow> group list) \<Rightarrow> error + ref \<times> (ref \<Rightarrow> group list)"
  construct_base ::
    "opt_class \<Rightarrow> ref \<Rightarrow> kwargs \<Rightarrow> (ref \<Rightarrow> group list) \<Rightarrow> error + ref \<times> kwargs \<times> (ref \<Rightarrow> group list)"
  construct :: "opt_class \<Rightarrow> 'p \<Rightarrow> kwargs \<Rightarrow> error + 'o"

text \<open>
  \<^verbatim>\<open>SAM.__init__(self, params, base_optimizer, rho=0.05, adaptive=False, **kwargs)\<close>.
  An omitted keyword argument is \<open>None\<close> and takes the default of the signature.
  \<open>st\<close> and \<open>hp\<close> are the parameters of the model and the heap at the call.
\<close>

definition SAM_init ::
  "('p, 'o) library \<Rightarrow> (pid \<Rightarrow> param) \<Rightarrow> (ref \<Rightarrow> group list) \<Rightarrow>
     'p \<Rightarrow> opt_class \<Rightarrow> real option \<Rightarrow> bool option \<Rightarrow> kwargs \<Rightarrow> error + sam" where
  "SAM_init lib st hp params' base_optimizer rho' adaptive' kwargs' =
     (let rh = (case rho' of None \<Rightarrow> 5 / 100 | Some r \<Rightarrow> r);
          ad = (case adaptive' of None \<Rightarrow> False | Some a \<Rightarrow> a)
      in if \<not> rh \<ge> 0 then Inl AssertionError
         else
           (let dflts = kwargs'(''rho'' \<mapsto> Num rh, ''adaptive'' \<mapsto> Flag ad)
            in case Optimizer_init lib params' dflts hp of
                 Inl e \<Rightarrow> Inl e
               | Inr (r1, h1) \<Rightarrow>
                   (case construct_base lib base_optimizer r1 kwargs' h1 of
                      Inl e \<Rightarrow> Inl e
                    | Inr (r2, base_defaults, h2) \<Rightarrow>
                        Inr \<lparr>store = st, heap = h2, param_groups = r2,
                             base_class = base_optimizer, base_param_groups = r2,
                             defaults = dflts ++ base_defaults, state = Map.empty\<rparr>)))"

text \<open>
  \<^verbatim>\<open>load_state_dict\<close>. \<open>Optimizer_load\<close> is the inherited
  \<^verbatim>\<open>torch.optim.Optimizer.load_state_dict\<close>, a parameter of the model.
\<close>

definition load_state_dict ::
  "('d \<Rightarrow> 'a sam_scheme \<Rightarrow> error + 'a sam_scheme) \<Rightarrow> 'd \<Rightarrow> 'a sam_scheme \<Rightarrow> error + 'a sam_scheme" where
  "load_state_dict Optimizer_load state_dict s =
     (case Optimizer_load state_dict s of
        Inl e \<Rightarrow> Inl e
      | Inr s1 \<Rightarrow> Inr (s1\<lparr>base_param_groups := param_groups s1\<rparr>))"

text \<open>What \<^verbatim>\<open>select_optimizer\<close> returns: a library optimizer or a \<^verbatim>\<open>SAM\<close> object.\<close>

datatype ('o, 's) optimizer = Library 'o | SAM 's

record 'p model =
  parameters :: 'p

definition lift_result :: "('a \<Rightarrow> 'b) \<Rightarrow> error + 'a \<Rightarrow> error + 'b" where
  "lift_result f r = (case r of Inl e \<Rightarrow> Inl e | Inr x \<Rightarrow> Inr (f x))"

text \<open>
  \<^verbatim>\<open>select_optimizer(optimizer_name, model, learning_rate, momentum=0.9, betas=(0.9, 0.999))\<close>
\<close>

definition select_optimizer ::
  "('p, 'o) library \<Rightarrow> (pid \<Rightarrow> param) \<Rightarrow> (ref \<Rightarrow> group list) \<Rightarrow>
     string \<Rightarrow> 'p model \<Rightarrow> real \<Rightarrow> real option \<Rightarrow> (real \<times> real) option \<Rightarrow>
     error + ('o, sam) optimizer" where
  "select_optimizer lib st hp optimizer_name model learning_rate momentum' betas' =
     (let momentum = (case momentum' of None \<Rightarrow> Num (9 / 10) | Some m \<Rightarrow> Num m);
          betas = (case betas' of None \<Rightarrow> Pair (9 / 10) (999 / 1000) | Some (b1, b2) \<Rightarrow> Pair b1 b2);
          lr = Num learning_rate
      in if optimizer_name = ''SGD'' then
           lift_result Library (construct lib SGD (parameters model) [''lr'' \<mapsto> lr])
         else if optimizer_name = ''momentum'' then
           lift_result Library
             (construct lib SGD (parameters model) [''lr'' \<mapsto> lr, ''momentum'' \<mapsto> momentum])
         else if optimizer_name = ''Adam'' then
           lift_result Library
             (construct lib Adam (parameters model) [''lr'' \<mapsto> lr, ''betas'' \<mapsto> betas])
         else if optimizer_name = ''AdamW'' then
           lift_result Library
             (construct lib AdamW (parameters model) [''lr'' \<mapsto> lr, ''betas'' \<mapsto> betas])
         else if optimizer_name = ''AdaBelief'' then
           lift_result Library
             (construct lib AdaBelief (parameters model) [''lr'' \<mapsto> lr, ''betas'' \<mapsto> betas])
         else if optimizer_name = ''SAM'' then
           lift_result SAM
             (SAM_init lib st hp (parameters model) SGD None None
                [''lr'' \<mapsto> lr, ''momentum'' \<mapsto> momentum])
         else if optimizer_name = ''SAM_Adam'' then
           lift_result SAM
             (SAM_init lib st hp (parameters model) Adam None None
                [''lr'' \<mapsto> lr, ''betas'' \<mapsto> betas])
         else Inl (ValueError ''Unsupported optimizer''))"

section \<open>Concrete worlds\<close>

text \<open>
  A small model for evaluating the definitions: parameter 0 has data \<open>[1, 2]\<close> and
  gradient \<open>[3, 4]\<close> (of norm 5), parameter 1 has data \<open>[5]\<close> and no gradient.
\<close>

definition ex_store :: "pid \<Rightarrow> param" where
  "ex_store =
     (\<lambda>p. \<lparr>data = [], grad = None\<rparr>)
       (0 := \<lparr>data = [1, 2], grad = Some [3, 4]\<rparr>, 1 := \<lparr>data = [5], grad = None\<rparr>)"

definition ex_group :: "pid list \<Rightarrow> group" where
  "ex_group ps = \<lparr>params = ps, rho = 1 / 2, adaptive = False, hypers = Map.empty\<rparr>"

definition ex_world :: "group list \<Rightarrow> sam" where
  "ex_world gs =
     \<lparr>store = ex_store, heap = (\<lambda>r. gs), param_groups = 0, base_class = SGD,
      base_param_groups = 0, defaults = Map.empty, state = Map.empty\<rparr>"

text \<open>A closure of the caller: the backward pass leaves a gradient on both parameters.\<close>

definition ex_closure :: "'a sam_scheme \<Rightarrow> error + 'a sam_scheme" where
  "ex_closure s =
     Inr (s\<lparr>store := (store s)(0 := (store s 0)\<lparr>grad := Some [3, 4]\<rparr>,
                                  1 := (store s 1)\<lparr>grad := Some [1]\<rparr>)\<rparr>)"


text \<open>A wrapped optimizer for the examples: plain gradient descent with step size \<open>lr\<close>.\<close>

definition ex_base_step :: "real \<Rightarrow> 'a sam_scheme \<Rightarrow> error + 'a sam_scheme" where
  "ex_base_step lr s =
     Inr (s\<lparr>store := (\<lambda>p. case grad (store s p) of
                             None \<Rightarrow> store s p
                           | Some g \<Rightarrow> (store s p)\<lparr>data := map2 (\<lambda>x d. x - lr * d) (data (store s p)) g\<rparr>)\<rparr>)"

text \<open>
  A library for the examples: the base class builds one group from the defaults, the
  wrapped optimizer keeps the groups it is given in a list of its own, and a library
  optimizer is represented by its class and keyword arguments.
\<close>

definition ex_library :: "(pid list, opt_class \<times> pid list \<times> (string \<times> hyper) list) library" where
  "ex_library =
     \<lparr>Optimizer_init = (\<lambda>ps d hp.
        if ps = [] then Inl (ValueError ''optimizer got an empty parameter list'')
        else Inr (1, hp(1 := [\<lparr>params = ps,
                               rho = (case d ''rho'' of Some (Num r) \<Rightarrow> r | _ \<Rightarrow> 0),
                               adaptive = (case d ''adaptive'' of Some (Flag a) \<Rightarrow> a | _ \<Rightarrow> False),
                               hypers = d\<rparr>]))),
      construct_base = (\<lambda>c r kw hp. Inr (2, kw, hp(2 := hp r))),
      construct = (\<lambda>c ps kw.
        Inr (c, ps, concat (map (\<lambda>k. case kw k of None \<Rightarrow> [] | Some v \<Rightarrow> [(k, v)])
                                [''lr'', ''momentum'', ''betas''])))\<rparr>"

text \<open>
  An inherited \<^verbatim>\<open>load_state_dict\<close> for the examples: the loaded groups are put in
  a new list object, to which \<^verbatim>\<open>self.param_groups\<close> then refers.
\<close>

definition ex_load :: "group list \<Rightarrow> 'a sam_scheme \<Rightarrow> error + 'a sam_scheme" where
  "ex_load gs s =
     Inr (s\<lparr>heap := (heap s)(Suc (max (param_groups s) (base_param_groups s)) := gs),
            param_groups := Suc (max (param_groups s) (base_param_groups s)),
            state := Map.empty\<rparr>)"

text \<open>The same model with a gradient of zeros on parameter 0.\<close>

definition ex_zero :: sam where
  "ex_zero = (ex_world [ex_group [0, 1]])\<lparr>store := ex_store(0 := \<lparr>data = [1, 2], grad = Some [0, 0]\<rparr>)\<rparr>"

text \<open>
  The world between the two phases: parameter 0 has been moved away from its
  snapshot \<open>[1, 2]\<close> and carries the gradient computed by the closure.
\<close>

definition ex_perturbed :: sam where
  "ex_perturbed =
     (ex_world [ex_group [0, 1]])
       \<lparr>store := ex_store(0 := \<lparr>data = [13 / 10, 7 / 5], grad = Some [3, 4]\<rparr>),
        state := [0 \<mapsto> [1, 2]]\<rparr>"

text \<open>
  A world that also counts the calls of the closure, and a closure that counts
  its calls and leaves a gradient on parameter 0.
\<close>

record counted = sam +
  calls :: nat

definition ex_counted :: counted where
  "ex_counted =
     \<lparr>store = ex_store, heap = (\<lambda>r. [ex_group [0, 1]]), param_groups = 0, base_class = SGD,
      base_param_groups = 0, defaults = Map.empty, state = Map.empty, calls = 0\<rparr>"

definition ex_counting_closure :: "counted \<Rightarrow> error + counted" where
  "ex_counting_closure s =
     Inr (s\<lparr>store := (store s)(0 := (store s 0)\<lparr>grad := Some [3, 4]\<rparr>), calls := Suc (calls s)\<rparr>)"






section \<open>Auxiliary notions for the statements\<close>

text \<open>Every gradient that is present is multiplied by \<open>k\<close>, element by element.\<close>

definition scale_grads :: "real \<Rightarrow> 'a sam_scheme \<Rightarrow> 'a sam_scheme" where
  "scale_grads k s =
     s\<lparr>store := (\<lambda>p. (store s p)\<lparr>grad := map_option (map (\<lambda>d. k * d)) (grad (store s p))\<rparr>)\<rparr>"

text \<open>
  The effect of the restoring loops of \<^verbatim>\<open>second_step\<close> in closed form: the
  parameters of \<open>P\<close> that have a gradient get their snapshot back; the loops fail
  when one of them has no snapshot.
\<close>

definition restored :: "pid set \<Rightarrow> 'a sam_scheme \<Rightarrow> 'a sam_scheme" where
  "restored P s =
     s\<lparr>store := (\<lambda>q. if q \<in> P \<and> grad (store s q) \<noteq> None
                      then (store s q)\<lparr>data := the (state s q)\<rparr> else store s q)\<rparr>"

definition unsnapshotted :: "pid set \<Rightarrow> 'a sam_scheme \<Rightarrow> bool" where
  "unsnapshotted P s \<longleftrightarrow> (\<exists>q\<in>P. grad (store s q) \<noteq> None \<and> state s q = None)"

section \<open>Lemmas about the norms and the loops\<close>

subsection \<open>Norms\<close>

lemma l2norm_nonneg: "0 \<le> l2norm xs"
  unfolding l2norm_def by (auto intro!: sum_list_nonneg)

lemma l2norm_single: "l2norm [x] = \<bar>x\<bar>"
  by (simp add: l2norm_def)

lemma sum_list_sq_scale:
  "sum_list (map (\<lambda>x. (k * x)\<^sup>2) xs) = k\<^sup>2 * sum_list (map (\<lambda>x. x\<^sup>2) xs)" for k :: real
  by (induction xs) (simp_all add: power_mult_distrib distrib_left)

lemma l2norm_scale: "l2norm (map (\<lambda>x. k * x) xs) = \<bar>k\<bar> * l2norm xs"
  by (simp add: l2norm_def comp_def sum_list_sq_scale real_sqrt_mult)

lemma l2norm_zero: "\<forall>x\<in>set xs. x = 0 \<Longrightarrow> l2norm xs = 0"
  by (induction xs) (simp_all add: l2norm_def)

lemma map_mult_one: "map (\<lambda>d. 1 * d) g = g" for g :: "real list"
  by (induction g) simp_all

lemma map2_add_map: "map2 (+) w (map h g) = map2 (\<lambda>x d. x + h d) w g"
  by (simp add: zip_map2 comp_def case_prod_beta)

lemma weighted_grad_scale:
  "weighted_grad gr w (map (\<lambda>d. k * d) g) = map (\<lambda>d. k * d) (weighted_grad gr w g)"
  by (simp add: weighted_grad_def zip_map2 comp_def case_prod_beta ac_simps)

lemma weighted_grad_zero:
  "\<forall>x\<in>set g. x = 0 \<Longrightarrow> \<forall>y\<in>set (weighted_grad gr w g). y = 0"
  by (auto simp: weighted_grad_def dest: set_zip_rightD)

lemma group_norms_scale:
  "group_norms (store (scale_grads k s)) gr = map (\<lambda>n. \<bar>k\<bar> * n) (group_norms (store s) gr)"
  unfolding group_norms_def map_concat
  by (rule arg_cong[where f=concat])
     (auto simp: scale_grads_def weighted_grad_scale l2norm_scale split: option.splits)

lemma group_norms_zero:
  "\<forall>p\<in>set (params gr). \<forall>g. grad (st p) = Some g \<longrightarrow> (\<forall>x\<in>set g. x = 0) \<Longrightarrow>
   \<forall>y\<in>set (group_norms st gr). y = 0"
proof -
  assume a: "\<forall>p\<in>set (params gr). \<forall>g. grad (st p) = Some g \<longrightarrow> (\<forall>x\<in>set g. x = 0)"
  have "l2norm (weighted_grad gr (data (st p)) g) = 0"
    if "p \<in> set (params gr)" "grad (st p) = Some g" for p g
    using a that by (intro l2norm_zero weighted_grad_zero) blast
  then show ?thesis
    by (auto simp: group_norms_def split: option.splits)
qed

lemma groups_scale_grads: "groups (scale_grads k s) = groups s"
  by (simp add: groups_def scale_grads_def)

lemma grad_norm_scale:
  "grad_norm (scale_grads k s) = lift_result (\<lambda>n. \<bar>k\<bar> * n) (grad_norm s)"
proof -
  have "concat (map (group_norms (store (scale_grads k s))) (groups s)) =
        map (\<lambda>n. \<bar>k\<bar> * n) (concat (map (group_norms (store s)) (groups s)))"
  proof -
    have "group_norms (store (scale_grads k s)) =
          (\<lambda>gr. map (\<lambda>n. \<bar>k\<bar> * n) (group_norms (store s) gr))"
      by (rule ext) (rule group_norms_scale)
    then show ?thesis by (simp add: map_concat comp_def)
  qed
  then show ?thesis
    by (simp add: grad_norm_def groups_scale_grads lift_result_def l2norm_scale Let_def
             split: list.splits)
qed

lemma grad_norm_zero:
  assumes "\<forall>p\<in>set (all_params (groups s)). \<forall>g. grad (store s p) = Some g \<longrightarrow> (\<forall>x\<in>set g. x = 0)"
    and "grad_norm s = Inr n"
  shows "n = 0"
proof -
  have "\<forall>y\<in>set (concat (map (group_norms (store s)) (groups s))). y = 0"
    using assms(1) group_norms_zero[of _ "store s"] by (fastforce simp: all_params_def)
  then have "l2norm (concat (map (group_norms (store s)) (groups s))) = 0"
    by (rule l2norm_zero)
  then show ?thesis using assms(2)
    by (auto simp: grad_norm_def Let_def split: list.splits if_splits)
qed

lemma restored_empty: "restored {} s = s"
  by (simp add: restored_def)

lemma restore_closed:
  "restore ps s = (if unsnapshotted (set ps) s then Inl KeyError else Inr (restored (set ps) s))"
proof (induction ps arbitrary: s)
  case Nil
  then show ?case by (simp add: unsnapshotted_def restored_def)
next
  case (Cons p ps)
  show ?case
  proof (cases "grad (store s p)")
    case None
    have "unsnapshotted (set (p # ps)) s = unsnapshotted (set ps) s"
      using None by (auto simp: unsnapshotted_def)
    moreover have "restored (set (p # ps)) s = restored (set ps) s"
      using None by (auto simp: restored_def fun_eq_iff intro!: arg_cong[where f="\<lambda>f. s\<lparr>store := f\<rparr>"])
    ultimately show ?thesis using None Cons.IH by simp
  next
    case (Some g)
    show ?thesis
    proof (cases "state s p")
      case None
      then show ?thesis using Some by (auto simp: unsnapshotted_def)
    next
      case (Some old)
      let ?s1 = "s\<lparr>store := (store s)(p := (store s p)\<lparr>data := old\<rparr>)\<rparr>"
      have g1: "\<And>q. grad (store ?s1 q) = grad (store s q)" by simp
      have st: "state ?s1 = state s" by simp
      have u: "unsnapshotted (set (p # ps)) s = unsnapshotted (set ps) ?s1"
        unfolding unsnapshotted_def by (simp only: g1 st) (use Some in auto)
      have r: "restored (set (p # ps)) s = restored (set ps) ?s1"
        unfolding restored_def
        apply simp
        apply (rule arg_cong[where f="\<lambda>f. s\<lparr>store := f\<rparr>"])
        apply (rule ext)
        using Some \<open>grad (store s p) = Some g\<close> apply auto
        done
      show ?thesis using Some \<open>grad (store s p) = Some g\<close> Cons.IH[of ?s1] u r by simp
    qed
  qed
qed




lemma perturb_grad: "grad (store (perturb gr sc ps s) q) = grad (store s q)"
  by (induction ps arbitrary: s) (simp_all add: Let_def split: option.splits)

lemma perturb_frame:
  "q \<notin> set ps \<or> grad (store s q) = None \<Longrightarrow>
   store (perturb gr sc ps s) q = store s q \<and> state (perturb gr sc ps s) q = state s q"
proof (induction ps arbitrary: s)
  case Nil
  then show ?case by simp
next
  case (Cons p ps)
  show ?case
  proof (cases "grad (store s p)")
    case None
    then show ?thesis using Cons.IH[of s] Cons.prems by auto
  next
    case (Some g)
    then have "q \<noteq> p" using Cons.prems by auto
    let ?s2 = "s\<lparr>state := (state s)(p \<mapsto> data (store s p)),
                 store := (store s)(p := (store s p)\<lparr>data := map2 (+) (data (store s p)) (e_w gr sc (data (store s p)) g)\<rparr>)\<rparr>"
    have "q \<notin> set ps \<or> grad (store ?s2 q) = None" using Cons.prems \<open>q \<noteq> p\<close> by auto
    from Cons.IH[OF this] show ?thesis using Some \<open>q \<noteq> p\<close> by (simp add: Let_def)
  qed
qed



lemma perturb_groups_grad: "grad (store (perturb_groups gn gs s) q) = grad (store s q)"
  by (induction gs arbitrary: s) (simp_all add: perturb_grad)

lemma perturb_groups_frame:
  "q \<notin> set (all_params gs) \<or> grad (store s q) = None \<Longrightarrow>
   store (perturb_groups gn gs s) q = store s q \<and> state (perturb_groups gn gs s) q = state s q"
proof (induction gs arbitrary: s)
  case Nil
  then show ?case by simp
next
  case (Cons gr gs)
  let ?s1 = "perturb gr (scale gr gn) (params gr) s"
  have a: "q \<notin> set (params gr) \<or> grad (store s q) = None"
    using Cons.prems by (auto simp: all_params_def)
  have b: "q \<notin> set (all_params gs) \<or> grad (store ?s1 q) = None"
    using Cons.prems by (auto simp: all_params_def perturb_grad)
  show ?case using Cons.IH[OF b] perturb_frame[OF a] by simp
qed



lemma restored_fields:
  "grad (store (restored P s) q) = grad (store s q)" "state (restored P s) = state s"
  "heap (restored P s) = heap s" "param_groups (restored P s) = param_groups s"
  by (simp_all add: restored_def)

lemma restored_restored: "restored B (restored A s) = restored (A \<union> B) s"
  unfolding restored_def
  apply simp
  apply (rule arg_cong[where f="\<lambda>f. s\<lparr>store := f\<rparr>"])
  apply (rule ext)
  apply auto
  done

lemma unsnapshotted_Un:
  "unsnapshotted (A \<union> B) s \<longleftrightarrow> unsnapshotted A s \<or> unsnapshotted B (restored A s)"
  unfolding unsnapshotted_def by (simp only: restored_fields) blast

lemma restore_groups_closed:
  "restore_groups gs s =
     (if unsnapshotted (set (all_params gs)) s then Inl KeyError
      else Inr (restored (set (all_params gs)) s))"
proof (induction gs arbitrary: s)
  case Nil
  then show ?case by (simp add: all_params_def unsnapshotted_def restored_def)
next
  case (Cons gr gs)
  have s: "set (all_params (gr # gs)) = set (params gr) \<union> set (all_params gs)"
    by (simp add: all_params_def)
  show ?case
    by (simp add: restore_closed Cons.IH s unsnapshotted_Un restored_restored)
qed



lemma zero_grad_fields:
  "data (store (zero_grad s) q) = data (store s q)" "state (zero_grad s) = state s"
  "heap (zero_grad s) = heap s" "param_groups (zero_grad s) = param_groups s"
  by (simp_all add: zero_grad_def)

lemma zero_grad_no_grad: "grad (store s q) = None \<Longrightarrow> store (zero_grad s) q = store s q"
proof -
  assume "grad (store s q) = None"
  then have "(store s q)\<lparr>grad := None\<rparr> = store s q"
    by (metis param.surjective param.update_convs(2))
  then show ?thesis by (simp add: zero_grad_def)
qed



lemma first_step_Inr:
  "first_step zg s = Inr s' \<Longrightarrow>
   \<exists>gn. grad_norm s = Inr gn \<and>
        s' = (if zg then zero_grad (perturb_groups gn (groups s) s) else perturb_groups gn (groups s) s)"
  by (auto simp: first_step_def Let_def split: sum.splits)


lemma first_step_frame:
  assumes "first_step zg s = Inr s'" "q \<notin> set (all_params (groups s)) \<or> grad (store s q) = None"
  shows "data (store s' q) = data (store s q) \<and> state s' q = state s q"
  using first_step_Inr[OF assms(1)] perturb_groups_frame[OF assms(2)]
  by (auto simp: zero_grad_fields)



lemma l2norm_3_4: "l2norm [3, 4] = 5"
proof -
  have "l2norm [3, 4] = sqrt (5\<^sup>2)" by (simp add: l2norm_def)
  then show ?thesis by simp
qed

lemma restored_state_upd:
  assumes "grad (store s p) = None"
  shows "restored P (s\<lparr>state := (state s)(p := v)\<rparr>) = (restored P s)\<lparr>state := (state s)(p := v)\<rparr>"
  by (rule sam.equality) (use assms in \<open>auto simp: restored_def fun_eq_iff\<close>)

lemma unsnapshotted_state_upd:
  assumes "grad (store s p) = None"
  shows "unsnapshotted P (s\<lparr>state := (state s)(p := v)\<rparr>) = unsnapshotted P s"
proof -
  have "(\<exists>q\<in>P. grad (store s q) \<noteq> None \<and> ((state s)(p := v)) q = None) \<longleftrightarrow>
        (\<exists>q\<in>P. grad (store s q) \<noteq> None \<and> state s q = None)"
    using assms by (metis fun_upd_other)
  then show ?thesis by (simp add: unsnapshotted_def)
qed

lemma restored_no_grad: "grad (store s p) = None \<Longrightarrow> store (restored P s) p = store s p"
  by (simp add: restored_def)

lemmas ex_defs = groups_def all_params_def ex_world_def ex_group_def ex_store_def ex_perturbed_def

lemma ex_world_grad_norm: "grad_norm (ex_world [ex_group [0, 1]]) = Inr 5"
  by (simp add: grad_norm_def ex_defs group_norms_def weighted_grad_def l2norm_3_4 l2norm_single)

lemma ex_perturbed_grad_norm: "grad_norm ex_perturbed = Inr 5"
  by (simp add: grad_norm_def ex_defs group_norms_def weighted_grad_def l2norm_3_4 l2norm_single)

lemma ex_first_step:
  "\<exists>s1. first_step True (ex_world [ex_group [0, 1]]) = Inr s1 \<and>
        groups s1 = [ex_group [0, 1]] \<and> state s1 = [0 \<mapsto> [1, 2]] \<and>
        grad (store s1 0) = None \<and> grad (store s1 1) = None \<and> data (store s1 0) \<noteq> [1, 2]"
  unfolding first_step_def ex_world_grad_norm
  apply (simp add: zero_grad_def scale_def e_w_def Let_def ex_defs)
  done




section \<open>Phase 1 on a model with a single parameter\<close>

text \<open>
  Claim C1. In a model with one group holding one parameter, of value \<open>w\<close> and
  gradient \<open>g\<close>, with \<open>adaptive\<close> off: \<^verbatim>\<open>first_step\<close> returns, the
  parameter is then \<open>w + rho * g / (|g| + 1e-12)\<close> element by element, where
  \<open>|g|\<close> is the L2 norm of \<open>g\<close>, and the snapshot kept for it is \<open>w\<close>.
\<close>

theorem first_step_single_parameter:
  assumes "groups s = [gr]" and "params gr = [p]" and "\<not> adaptive gr"
    and "data (store s p) = w" and "grad (store s p) = Some g" and "length g = length w"
  shows "\<exists>s'. first_step zg s = Inr s' \<and>
           data (store s' p) = map2 (\<lambda>x d. x + rho gr * d / (l2norm g + 1 / 10 ^ 12)) w g \<and>
           state s' p = Some w"
proof -
  have gn: "grad_norm s = Inr (l2norm g)"
    using assms
    by (simp add: grad_norm_def group_norms_def weighted_grad_def map_mult_one l2norm_single
        l2norm_nonneg)
  let ?s1 = "perturb_groups (l2norm g) (groups s) s"
  have e: "map2 (+) w (e_w gr (scale gr (l2norm g)) w g) =
           map2 (\<lambda>x d. x + rho gr * d / (l2norm g + 1 / 10 ^ 12)) w g"
    using assms(3) by (auto simp: e_w_def scale_def map2_add_map)
  have d: "data (store ?s1 p) = map2 (+) w (e_w gr (scale gr (l2norm g)) w g)"
    and st: "state ?s1 p = Some w"
    using assms by (simp_all add: Let_def)
  have "first_step zg s = Inr (if zg then zero_grad ?s1 else ?s1)"
    by (simp add: first_step_def gn Let_def)
  then show ?thesis using d st e by (auto simp: zero_grad_fields)
qed

theorem first_step_single_parameter_witness:
  "groups (ex_world [ex_group [0]]) = [ex_group [0]] \<and> params (ex_group [0]) = [0] \<and>
   \<not> adaptive (ex_group [0]) \<and> data (store (ex_world [ex_group [0]]) 0) = [1, 2] \<and>
   grad (store (ex_world [ex_group [0]]) 0) = Some [3, 4] \<and>
   length [3, 4 :: real] = length [1, 2 :: real] \<and>
   (\<exists>s'. first_step True (ex_world [ex_group [0]]) = Inr s' \<and>
      data (store s' 0) = [1 + (1 / 2) * 3 / (5 + 1 / 10 ^ 12),
                           2 + (1 / 2) * 4 / (5 + 1 / 10 ^ 12)] \<and>
      state s' 0 = Some [1, 2])"
  using first_step_single_parameter[of "ex_world [ex_group [0]]" "ex_group [0]" 0 "[1, 2]" "[3, 4]" True]
  by (simp add: groups_def ex_world_def ex_group_def ex_store_def l2norm_3_4)

section \<open>Phase 2 restores the snapshots\<close>




section \<open>Homogeneity of the gradient norm\<close>

text \<open>
  Claim C3. Multiplying every gradient by 2 doubles the result of
  \<^verbatim>\<open>_grad_norm\<close> (and leaves a failure as it is). When every gradient present is
  all zeros and \<^verbatim>\<open>_grad_norm\<close> returns \<open>n\<close>, then \<open>n = 0\<close>, the divisor
  \<open>n + 1e-12\<close> is positive and the scale of a group is \<open>rho * 1e12\<close>.
\<close>

theorem grad_norm_homogeneous:
  "grad_norm (scale_grads 2 s) = lift_result (\<lambda>n. 2 * n) (grad_norm s) \<and>
   ((\<forall>p\<in>set (all_params (groups s)). \<forall>g. grad (store s p) = Some g \<longrightarrow> (\<forall>x\<in>set g. x = 0)) \<longrightarrow>
    grad_norm s = Inr n \<longrightarrow>
    n = 0 \<and> 0 < n + 1 / 10 ^ 12 \<and> scale gr n = rho gr * 10 ^ 12)"
proof (intro conjI impI)
  show "grad_norm (scale_grads 2 s) = lift_result (\<lambda>n. 2 * n) (grad_norm s)"
    using grad_norm_scale[of 2 s] by simp
next
  assume z: "\<forall>p\<in>set (all_params (groups s)). \<forall>g. grad (store s p) = Some g \<longrightarrow> (\<forall>x\<in>set g. x = 0)"
    and r: "grad_norm s = Inr n"
  show n: "n = 0" using z r by (rule grad_norm_zero)
  show "0 < n + 1 / 10 ^ 12" using n by simp
  show "scale gr n = rho gr * 10 ^ 12" using n by (simp add: scale_def)
qed

theorem grad_norm_homogeneous_witness:
  "grad_norm (scale_grads 2 (ex_world [ex_group [0, 1]])) = Inr 10 \<and>
   grad_norm (ex_world [ex_group [0, 1]]) = Inr 5 \<and>
   all_params (groups ex_zero) = [0, 1] \<and> grad (store ex_zero 0) = Some [0, 0] \<and>
   grad (store ex_zero 1) = None \<and>
   grad_norm ex_zero = Inr 0 \<and> (0 :: real) < 0 + 1 / 10 ^ 12 \<and>
   scale (ex_group [0, 1]) 0 = 1 / 2 * 10 ^ 12"
proof -
  have g5: "grad_norm (ex_world [ex_group [0, 1]]) = Inr 5"
    by (simp add: grad_norm_def groups_def ex_world_def ex_group_def ex_store_def
        group_norms_def weighted_grad_def l2norm_3_4 l2norm_single)
  have z: "\<forall>p\<in>set (all_params (groups ex_zero)). \<forall>g. grad (store ex_zero p) = Some g \<longrightarrow> (\<forall>x\<in>set g. x = 0)"
    by (simp add: ex_zero_def all_params_def groups_def ex_world_def ex_group_def ex_store_def)
  have g0: "grad_norm ex_zero = Inr 0"
    by (simp add: ex_zero_def grad_norm_def groups_def ex_world_def ex_group_def ex_store_def
        group_norms_def weighted_grad_def l2norm_def)
  have e: "all_params (groups ex_zero) = [0, 1] \<and> grad (store ex_zero 0) = Some [0, 0] \<and>
      grad (store ex_zero 1) = None"
    by (simp add: ex_zero_def all_params_def groups_def ex_world_def ex_group_def ex_store_def)
  have d: "grad_norm (scale_grads 2 (ex_world [ex_group [0, 1]])) = Inr 10"
    using grad_norm_homogeneous[of "ex_world [ex_group [0, 1]]" 0 "ex_group [0, 1]"] g5
    by (simp add: lift_result_def)
  have "(0 :: real) < 0 + 1 / 10 ^ 12 \<and> scale (ex_group [0, 1]) 0 = 1 / 2 * 10 ^ 12"
    using grad_norm_homogeneous[of ex_zero 0 "ex_group [0, 1]"] z g0
    by (simp add: ex_group_def)
  then show ?thesis using d g5 e g0 by blast
qed

section \<open>The protocol of a full step\<close>

text \<open>
  Claim C4. \<^verbatim>\<open>step\<close> without a closure fails with an assertion error. With a
  closure it runs \<^verbatim>\<open>first_step(zero_grad=True)\<close>, then the closure once, then
  \<^verbatim>\<open>second_step()\<close>, and a failure of any of the three is the failure of the step.
\<close>

theorem step_protocol:
  "step base_step None s = Inl AssertionError \<and>
   step base_step (Some closure) s =
     (case first_step True s of
        Inl e \<Rightarrow> Inl e
      | Inr s1 \<Rightarrow> (case closure s1 of Inl e \<Rightarrow> Inl e | Inr s2 \<Rightarrow> second_step base_step False s2))"
  by (simp add: step_def)

theorem step_protocol_witness:
  "step (ex_base_step (1 / 10)) None ex_counted = Inl AssertionError \<and>
   (\<exists>s'. step (ex_base_step (1 / 10)) (Some ex_counting_closure) ex_counted = Inr s' \<and>
      calls s' = Suc (calls ex_counted) \<and> data (store s' 0) = [7 / 10, 8 / 5])"
proof -
  have gn: "grad_norm ex_counted = Inr 5"
    by (simp add: grad_norm_def ex_counted_def ex_defs group_norms_def weighted_grad_def
        l2norm_3_4 l2norm_single)
  have "\<exists>s'. (case first_step True ex_counted of
        Inl e \<Rightarrow> Inl e
      | Inr s1 \<Rightarrow> (case ex_counting_closure s1 of Inl e \<Rightarrow> Inl e
                  | Inr s2 \<Rightarrow> second_step (ex_base_step (1 / 10)) False s2)) = Inr s' \<and>
      calls s' = Suc (calls ex_counted) \<and> data (store s' 0) = [7 / 10, 8 / 5]"
    unfolding first_step_def gn
    apply (simp add: zero_grad_def scale_def e_w_def Let_def ex_counting_closure_def
        second_step_def ex_base_step_def ex_counted_def ex_defs)
    done
  then show ?thesis
    using step_protocol[of "ex_base_step (1 / 10)" ex_counted ex_counting_closure] by simp
qed

section \<open>Parameters without a gradient\<close>

text \<open>
  Claim C5. For a parameter \<open>p\<close> without a gradient: \<^verbatim>\<open>first_step\<close> leaves the
  parameter and its entry in the state as they are; the restoring loops of
  \<^verbatim>\<open>second_step\<close> hand \<open>p\<close> unchanged, with an unchanged state, to the wrapped
  optimizer; and their outcome does not depend on the entry of \<open>p\<close> in the state.
\<close>

theorem no_gradient_untouched:
  assumes "grad (store s p) = None"
  shows "(\<forall>s'. first_step zg s = Inr s' \<longrightarrow> store s' p = store s p \<and> state s' p = state s p) \<and>
         (\<forall>s'. second_step base_step zg s = Inr s' \<longrightarrow>
            (\<exists>r s2. restore_groups (groups s) s = Inr r \<and> store r p = store s p \<and>
               state r = state s \<and> base_step r = Inr s2 \<and>
               s' = (if zg then zero_grad s2 else s2))) \<and>
         restore_groups (groups s) (s\<lparr>state := (state s)(p := v)\<rparr>) =
           lift_result (\<lambda>r. r\<lparr>state := (state r)(p := v)\<rparr>) (restore_groups (groups s) s)"
proof (intro conjI allI impI)
  fix s' assume f: "first_step zg s = Inr s'"
  from first_step_Inr[OF f] obtain gn where
    s': "s' = (if zg then zero_grad (perturb_groups gn (groups s) s) else perturb_groups gn (groups s) s)"
    by blast
  let ?s1 = "perturb_groups gn (groups s) s"
  have fr: "store ?s1 p = store s p" "state ?s1 p = state s p"
    using perturb_groups_frame[of p "groups s" s gn] assms by simp_all
  then have "grad (store ?s1 p) = None" using assms by simp
  then have "store (zero_grad ?s1) p = store ?s1 p" by (rule zero_grad_no_grad)
  then show "store s' p = store s p" using s' fr by simp
  show "state s' p = state s p" using s' fr by (simp add: zero_grad_fields)
next
  fix s' assume "second_step base_step zg s = Inr s'"
  then show "\<exists>r s2. restore_groups (groups s) s = Inr r \<and> store r p = store s p \<and>
               state r = state s \<and> base_step r = Inr s2 \<and>
               s' = (if zg then zero_grad s2 else s2)"
    using assms
    by (auto simp: second_step_def restore_groups_closed restored_no_grad restored_fields
        split: sum.splits if_splits)
next
  show "restore_groups (groups s) (s\<lparr>state := (state s)(p := v)\<rparr>) =
           lift_result (\<lambda>r. r\<lparr>state := (state r)(p := v)\<rparr>) (restore_groups (groups s) s)"
    using assms
    by (simp add: restore_groups_closed unsnapshotted_state_upd restored_state_upd lift_result_def
        restored_fields)
qed

theorem no_gradient_untouched_witness:
  "grad (store ex_perturbed 1) = None \<and>
   (\<exists>s'. first_step True ex_perturbed = Inr s' \<and> store s' 1 = store ex_perturbed 1 \<and>
      state s' 1 = state ex_perturbed 1) \<and>
   (\<exists>s' r. second_step (ex_base_step (1 / 10)) False ex_perturbed = Inr s' \<and>
      restore_groups (groups ex_perturbed) ex_perturbed = Inr r \<and>
      store r 1 = store ex_perturbed 1 \<and> state r = state ex_perturbed)"
proof -
  have h: "grad (store ex_perturbed 1) = None" by (simp add: ex_defs)
  obtain s1 where s1: "first_step True ex_perturbed = Inr s1"
    by (simp add: first_step_def ex_perturbed_grad_norm)
  obtain s2 where s2: "second_step (ex_base_step (1 / 10)) False ex_perturbed = Inr s2"
    by (simp add: second_step_def restore_groups_closed unsnapshotted_def ex_base_step_def ex_defs)
  from no_gradient_untouched[OF h, of True "ex_base_step (1 / 10)"] s1
  have a: "store s1 1 = store ex_perturbed 1 \<and> state s1 1 = state ex_perturbed 1" by blast
  from no_gradient_untouched[OF h, of False "ex_base_step (1 / 10)"] s2
  obtain r where "restore_groups (groups ex_perturbed) ex_perturbed = Inr r"
    "store r 1 = store ex_perturbed 1" "state r = state ex_perturbed" by blast
  then show ?thesis using h s1 s2 a by blast
qed

section \<open>The check of rho at construction\<close>

text \<open>
  Claim C6. For \<open>rho < 0\<close> the constructor fails with an assertion error, whatever
  the collaborators would do (the check comes first). For \<open>0 \<le> rho\<close> the
  construction succeeds whenever the base class initialiser and the constructor of the
  wrapped optimizer return, and both optimizers then share one group list.
\<close>

theorem SAM_init_rho:
  "(rho' < 0 \<longrightarrow> SAM_init lib st hp ps base (Some rho') ad kw = Inl AssertionError) \<and>
   (0 \<le> rho' \<longrightarrow>
      Optimizer_init lib ps
        (kw(''rho'' \<mapsto> Num rho', ''adaptive'' \<mapsto> Flag (case ad of None \<Rightarrow> False | Some a \<Rightarrow> a))) hp
        = Inr (r1, h1) \<longrightarrow>
      construct_base lib base r1 kw h1 = Inr (r2, bd, h2) \<longrightarrow>
      (\<exists>s. SAM_init lib st hp ps base (Some rho') ad kw = Inr s \<and> store s = st \<and> heap s = h2 \<and>
           param_groups s = r2 \<and> base_param_groups s = r2 \<and> base_class s = base \<and>
           state s = Map.empty))"
  by (simp add: SAM_init_def Let_def)

theorem SAM_init_rho_witness:
  "SAM_init ex_library ex_store (\<lambda>r. []) [0, 1] SGD (Some (- 1 / 100)) None [''lr'' \<mapsto> Num (1 / 10)]
     = Inl AssertionError \<and>
   (\<exists>s. SAM_init ex_library ex_store (\<lambda>r. []) [0, 1] SGD (Some 0) None [''lr'' \<mapsto> Num (1 / 10)]
           = Inr s \<and> param_groups s = 2 \<and> base_param_groups s = 2 \<and>
         groups s = [\<lparr>params = [0, 1], rho = 0, adaptive = False,
                      hypers = [''lr'' \<mapsto> Num (1 / 10), ''rho'' \<mapsto> Num 0, ''adaptive'' \<mapsto> Flag False]\<rparr>])"
proof -
  let ?kw = "[''lr'' \<mapsto> Num (1 / 10)]"
  let ?d = "?kw(''rho'' \<mapsto> Num 0, ''adaptive'' \<mapsto> Flag (case None of None \<Rightarrow> False | Some a \<Rightarrow> a))"
  let ?g = "[\<lparr>params = [0, 1], rho = 0, adaptive = False, hypers = ?d\<rparr>]"
  let ?h1 = "(\<lambda>r. [])(1 := ?g)"
  have a: "Optimizer_init ex_library [0, 1] ?d (\<lambda>r. []) = Inr (1, ?h1)"
    by (simp add: ex_library_def)
  have b: "construct_base ex_library SGD 1 ?kw ?h1 = Inr (2, ?kw, ?h1(2 := ?h1 1))"
    by (simp add: ex_library_def)
  from SAM_init_rho[of "- 1 / 100" ex_library ex_store "\<lambda>r. []" "[0, 1]" SGD None ?kw]
  have n: "SAM_init ex_library ex_store (\<lambda>r. []) [0, 1] SGD (Some (- 1 / 100)) None ?kw = Inl AssertionError"
    by simp
  from SAM_init_rho[of 0 ex_library ex_store "\<lambda>r. []" "[0, 1]" SGD None ?kw 1 ?h1 2 ?kw "?h1(2 := ?h1 1)"] a b
  obtain s where "SAM_init ex_library ex_store (\<lambda>r. []) [0, 1] SGD (Some 0) None ?kw = Inr s"
    "heap s = ?h1(2 := ?h1 1)" "param_groups s = 2" "base_param_groups s = 2"
    by auto
  then show ?thesis using n by (auto simp: groups_def)
qed

section \<open>Sharing of the group list after loading\<close>

text \<open>
  Claim C7. When \<^verbatim>\<open>load_state_dict\<close> returns, the wrapped optimizer's
  \<^verbatim>\<open>param_groups\<close> is the very reference held by the \<^verbatim>\<open>SAM\<close> object, so both
  read the same list; everything else is as the inherited \<^verbatim>\<open>load_state_dict\<close> left it.
\<close>

theorem load_state_dict_shares_groups:
  assumes "load_state_dict Optimizer_load state_dict s = Inr s'"
  shows "base_param_groups s' = param_groups s' \<and>
         heap s' (base_param_groups s') = groups s' \<and>
         (\<exists>s1. Optimizer_load state_dict s = Inr s1 \<and> param_groups s' = param_groups s1 \<and>
               heap s' = heap s1 \<and> state s' = state s1 \<and> store s' = store s1)"
  using assms by (auto simp: load_state_dict_def groups_def split: sum.splits)

theorem load_state_dict_shares_groups_witness:
  "(\<exists>s1. ex_load [ex_group [0]] (ex_world [ex_group [0, 1]]) = Inr s1 \<and>
         base_param_groups s1 \<noteq> param_groups s1) \<and>
   (\<exists>s'. load_state_dict ex_load [ex_group [0]] (ex_world [ex_group [0, 1]]) = Inr s' \<and>
         base_param_groups s' = param_groups s' \<and> param_groups s' = 1 \<and>
         heap s' (base_param_groups s') = [ex_group [0]])"
proof -
  let ?W = "ex_world [ex_group [0, 1]]"
  obtain s' where s': "load_state_dict ex_load [ex_group [0]] ?W = Inr s'"
    "param_groups s' = 1" "groups s' = [ex_group [0]]"
    by (simp add: load_state_dict_def ex_load_def ex_world_def groups_def)
  have "\<exists>s1. ex_load [ex_group [0]] ?W = Inr s1 \<and> base_param_groups s1 \<noteq> param_groups s1"
    by (simp add: ex_load_def ex_world_def)
  then show ?thesis
    using load_state_dict_shares_groups[OF s'(1)] s' by auto
qed

section \<open>The factory\<close>

text \<open>
  Claim C8. For each of the seven names \<^verbatim>\<open>select_optimizer\<close> returns the result
  of the matching constructor over the parameters of the model with the learning
  rate and the momentum or betas forwarded (defaults 0.9 and (0.9, 0.999)), with
  \<^verbatim>\<open>SGD\<close> wrapped for \<^verbatim>\<open>"SAM"\<close> and \<^verbatim>\<open>Adam\<close> for \<^verbatim>\<open>"SAM_Adam"\<close>; for any
  other name it fails with \<^verbatim>\<open>ValueError("Unsupported optimizer")\<close>, whatever the
  library, the model and the heap are.
\<close>

theorem select_optimizer_dispatch:
  "select_optimizer lib st hp ''SGD'' model lr mo bs =
     lift_result Library (construct lib SGD (parameters model) [''lr'' \<mapsto> Num lr]) \<and>
   select_optimizer lib st hp ''momentum'' model lr mo bs =
     lift_result Library
       (construct lib SGD (parameters model)
          [''lr'' \<mapsto> Num lr, ''momentum'' \<mapsto> (case mo of None \<Rightarrow> Num (9 / 10) | Some m \<Rightarrow> Num m)]) \<and>
   select_optimizer lib st hp ''Adam'' model lr mo bs =
     lift_result Library
       (construct lib Adam (parameters model)
          [''lr'' \<mapsto> Num lr,
           ''betas'' \<mapsto> (case bs of None \<Rightarrow> Pair (9 / 10) (999 / 1000) | Some (b1, b2) \<Rightarrow> Pair b1 b2)]) \<and>
   select_optimizer lib st hp ''AdamW'' model lr mo bs =
     lift_result Library
       (construct lib AdamW (parameters model)
          [''lr'' \<mapsto> Num lr,
           ''betas'' \<mapsto> (case bs of None \<Rightarrow> Pair (9 / 10) (999 / 1000) | Some (b1, b2) \<Rightarrow> Pair b1 b2)]) \<and>
   select_optimizer lib st hp ''AdaBelief'' model lr mo bs =
     lift_result Library
       (construct lib AdaBelief (parameters model)
          [''lr'' \<mapsto> Num lr,
           ''betas'' \<mapsto> (case bs of None \<Rightarrow> Pair (9 / 10) (999 / 1000) | Some (b1, b2) \<Rightarrow> Pair b1 b2)]) \<and>
   select_optimizer lib st hp ''SAM'' model lr mo bs =
     lift_result SAM
       (SAM_init lib st hp (parameters model) SGD None None
          [''lr'' \<mapsto> Num lr, ''momentum'' \<mapsto> (case mo of None \<Rightarrow> Num (9 / 10) | Some m \<Rightarrow> Num m)]) \<and>
   select_optimizer lib st hp ''SAM_Adam'' model lr mo bs =
     lift_result SAM
       (SAM_init lib st hp (parameters model) Adam None None
          [''lr'' \<mapsto> Num lr,
           ''betas'' \<mapsto> (case bs of None \<Rightarrow> Pair (9 / 10) (999 / 1000) | Some (b1, b2) \<Rightarrow> Pair b1 b2)]) \<and>
   (name \<notin> {''SGD'', ''momentum'', ''Adam'', ''AdamW'', ''AdaBelief'', ''SAM'', ''SAM_Adam''} \<longrightarrow>
      select_optimizer lib st hp name model lr mo bs = Inl (ValueError ''Unsupported optimizer''))"
  by (simp add: select_optimizer_def)

theorem select_optimizer_dispatch_witness:
  "select_optimizer ex_library ex_store (\<lambda>r. []) ''SGD'' \<lparr>parameters = [0, 1]\<rparr> (1 / 10) None None =
     Inr (Library (SGD, [0, 1], [(''lr'', Num (1 / 10))])) \<and>
   select_optimizer ex_library ex_store (\<lambda>r. []) ''Adam'' \<lparr>parameters = [0, 1]\<rparr> (1 / 10) None None =
     Inr (Library (Adam, [0, 1], [(''lr'', Num (1 / 10)), (''betas'', Pair (9 / 10) (999 / 1000))])) \<and>
   (\<exists>s. select_optimizer ex_library ex_store (\<lambda>r. []) ''SAM'' \<lparr>parameters = [0, 1]\<rparr> (1 / 10) None None =
          Inr (SAM s) \<and> base_class s = SGD \<and> map params (groups s) = [[0, 1]] \<and>
          map rho (groups s) = [5 / 100]) \<and>
   ''bogus'' \<notin> {''SGD'', ''momentum'', ''Adam'', ''AdamW'', ''AdaBelief'', ''SAM'', ''SAM_Adam''} \<and>
   select_optimizer ex_library ex_store (\<lambda>r. []) ''bogus'' \<lparr>parameters = [0, 1]\<rparr> (1 / 10) None None =
     Inl (ValueError ''Unsupported optimizer'')"
proof -
  let ?sel = "\<lambda>n. select_optimizer ex_library ex_store (\<lambda>r. []) n \<lparr>parameters = [0, 1]\<rparr> (1 / 10) None None"
  note d = select_optimizer_dispatch[of ex_library ex_store "\<lambda>r. []" "\<lparr>parameters = [0, 1]\<rparr>" "1 / 10"
      None None "''bogus''"]
  note d1 = d[THEN conjunct1]
  note d3 = d[THEN conjunct2, THEN conjunct2, THEN conjunct1]
  note d6 = d[THEN conjunct2, THEN conjunct2, THEN conjunct2, THEN conjunct2, THEN conjunct2,
      THEN conjunct1]
  have 1: "?sel ''SGD'' = Inr (Library (SGD, [0, 1], [(''lr'', Num (1 / 10))]))"
    unfolding d1 by (simp add: lift_result_def ex_library_def)
  have 2: "?sel ''Adam'' =
      Inr (Library (Adam, [0, 1], [(''lr'', Num (1 / 10)), (''betas'', Pair (9 / 10) (999 / 1000))]))"
    unfolding d3 by (simp add: lift_result_def ex_library_def)
  have 3: "\<exists>s. ?sel ''SAM'' = Inr (SAM s) \<and> base_class s = SGD \<and> map params (groups s) = [[0, 1]] \<and>
          map rho (groups s) = [5 / 100]"
    unfolding d6 by (simp add: lift_result_def SAM_init_def ex_library_def groups_def Let_def)
  have 4: "''bogus'' \<notin> {''SGD'', ''momentum'', ''Adam'', ''AdamW'', ''AdaBelief'', ''SAM'', ''SAM_Adam''}"
    by simp
  have 5: "?sel ''bogus'' = Inl (ValueError ''Unsupported optimizer'')"
    using d 4 by blast
  show ?thesis using 1 2 3 4 5 by blast
qed

section \<open>A gradient without a snapshot\<close>

text \<open>
  Claim C9. If a parameter of the groups has a gradient and no snapshot when
  \<^verbatim>\<open>second_step\<close> runs, \<^verbatim>\<open>second_step\<close> fails with \<^verbatim>\<open>KeyError\<close>, whatever
  the wrapped optimizer is; when every parameter with a gradient has a snapshot, the
  restoring loops succeed.
\<close>

theorem second_step_missing_snapshot:
  "(p \<in> set (all_params (groups s)) \<and> grad (store s p) \<noteq> None \<and> state s p = None \<longrightarrow>
      second_step base_step zg s = Inl KeyError) \<and>
   ((\<forall>q\<in>set (all_params (groups s)). grad (store s q) \<noteq> None \<longrightarrow> state s q \<noteq> None) \<longrightarrow>
      (\<exists>r. restore_groups (groups s) s = Inr r))"
  by (auto simp: second_step_def restore_groups_closed unsnapshotted_def)

theorem second_step_missing_snapshot_witness:
  "(\<exists>s1 s2. first_step True (ex_world [ex_group [0, 1]]) = Inr s1 \<and> ex_closure s1 = Inr s2 \<and>
      1 \<in> set (all_params (groups s2)) \<and> grad (store s2 1) \<noteq> None \<and> state s2 1 = None \<and>
      second_step (ex_base_step (1 / 10)) False s2 = Inl KeyError) \<and>
   all_params (groups ex_perturbed) = [0, 1] \<and> state ex_perturbed 0 \<noteq> None \<and>
   grad (store ex_perturbed 1) = None \<and>
   (\<exists>r. restore_groups (groups ex_perturbed) ex_perturbed = Inr r)"
proof -
  let ?W = "ex_world [ex_group [0, 1]]"
  obtain s1 where s1: "first_step True ?W = Inr s1" "groups s1 = [ex_group [0, 1]]"
    "state s1 = [0 \<mapsto> [1, 2]]"
    using ex_first_step by blast
  let ?s2 = "s1\<lparr>store := (store s1)(0 := (store s1 0)\<lparr>grad := Some [3, 4]\<rparr>,
                                     1 := (store s1 1)\<lparr>grad := Some [1]\<rparr>)\<rparr>"
  have c: "ex_closure s1 = Inr ?s2" by (simp add: ex_closure_def)
  have a: "1 \<in> set (all_params (groups ?s2)) \<and> grad (store ?s2 1) \<noteq> None \<and> state ?s2 1 = None"
    using s1(2,3) by (simp add: groups_def all_params_def ex_group_def)
  have k: "second_step (ex_base_step (1 / 10)) False ?s2 = Inl KeyError"
    using second_step_missing_snapshot[of 1 ?s2 "ex_base_step (1 / 10)" False] a by blast
  have p: "\<forall>q\<in>set (all_params (groups ex_perturbed)).
      grad (store ex_perturbed q) \<noteq> None \<longrightarrow> state ex_perturbed q \<noteq> None"
    by (simp add: ex_defs)
  have "\<exists>r. restore_groups (groups ex_perturbed) ex_perturbed = Inr r"
    using second_step_missing_snapshot[of 1 ex_perturbed "ex_base_step (1 / 10)" False] p by blast
  moreover have "all_params (groups ex_perturbed) = [0, 1] \<and> state ex_perturbed 0 \<noteq> None \<and>
      grad (store ex_perturbed 1) = None"
    by (simp add: ex_defs)
  ultimately show ?thesis using s1(1) c a k by blast
qed

section \<open>An empty first group\<close>

text \<open>
  Claim C10. When the first parameter group is empty, \<^verbatim>\<open>_grad_norm\<close> fails with
  \<^verbatim>\<open>IndexError\<close>, and so do \<^verbatim>\<open>first_step\<close> and \<^verbatim>\<open>step\<close>, whatever the
  other groups contain.
\<close>

theorem grad_norm_empty_first_group:
  assumes "groups s = g0 # gs" and "params g0 = []"
  shows "grad_norm s = Inl IndexError \<and> first_step zg s = Inl IndexError \<and>
         step base_step (Some closure) s = Inl IndexError"
  using assms by (simp add: grad_norm_def first_step_def step_def)

theorem grad_norm_empty_first_group_witness:
  "groups (ex_world [ex_group [], ex_group [0]]) = ex_group [] # [ex_group [0]] \<and>
   params (ex_group []) = [] \<and>
   grad (store (ex_world [ex_group [], ex_group [0]]) 0) = Some [3, 4] \<and>
   grad_norm (ex_world [ex_group [], ex_group [0]]) = Inl IndexError \<and>
   first_step True (ex_world [ex_group [], ex_group [0]]) = Inl IndexError \<and>
   step (ex_base_step (1 / 10)) (Some ex_closure) (ex_world [ex_group [], ex_group [0]]) = Inl IndexError"
  using grad_norm_empty_first_group[of "ex_world [ex_group [], ex_group [0]]" "ex_group []"
      "[ex_group [0]]" True "ex_base_step (1 / 10)" ex_closure]
  by (simp add: groups_def ex_world_def ex_group_def ex_store_def)

end
